theory Spec2Isabelle
  imports Complex_Main
begin

section \<open>The host environment of the content script\<close>

text \<open>
  The content script \<^verbatim>\<open>content.js\<close> runs against three host facilities: the element tree of
  the page (\<^verbatim>\<open>document.body.contains\<close>, \<^verbatim>\<open>Element.closest\<close>), the timer queue
  (\<^verbatim>\<open>setTimeout\<close>, \<^verbatim>\<open>clearTimeout\<close>) and \<^verbatim>\<open>chrome.storage.local\<close>. Each is modelled
  by the small part of its behaviour the script relies on.
\<close>

subsection \<open>Elements and selectors\<close>

text \<open>
  An element carries its lower-case local name, its class list and its child elements.
  A node of a tree is addressed by the list of child indices leading to it from the root.
\<close>

datatype element =
  Element (localName: string) (classList: "string list") (childElements: "element list")

datatype selector = TypeSelector string | ClassSelector string

fun matches :: "selector \<Rightarrow> element \<Rightarrow> bool" where
  "matches (TypeSelector n) e = (localName e = n)"
| "matches (ClassSelector c) e = (c \<in> set (classList e))"

text \<open>
  The inclusive ancestors of the node at a path, the node itself first and the root last;
  \<open>None\<close> when the path leaves the tree.
\<close>

fun inclusiveAncestors :: "element \<Rightarrow> nat list \<Rightarrow> element list option" where
  "inclusiveAncestors e [] = Some [e]"
| "inclusiveAncestors e (i # p) =
     (if i < length (childElements e)
      then map_option (\<lambda>chain. chain @ [e]) (inclusiveAncestors (childElements e ! i) p)
      else None)"

text \<open>
  The target of an event is an element of the document (given by its path from the document
  element) or an element of a tree that is not connected to the document.
\<close>

datatype event_target = InDocument "nat list" | Detached element "nat list"

text \<open>
  \<^verbatim>\<open>document.body\<close>: the first child of the \<^verbatim>\<open>html\<close> document element that is a
  \<^verbatim>\<open>body\<close> or a \<^verbatim>\<open>frameset\<close>; null when there is none. The result is the child index.
\<close>

definition document_body :: "element \<Rightarrow> nat option" where
  "document_body doc =
     (if localName doc = ''html''
      then List.find (\<lambda>i. localName (childElements doc ! i) = ''body''
                          \<or> localName (childElements doc ! i) = ''frameset'')
             [0 ..< length (childElements doc)]
      else None)"

text \<open>\<^verbatim>\<open>body.contains(target)\<close>, for the body at child index \<open>b\<close> of the document element.\<close>

definition contains :: "element \<Rightarrow> nat \<Rightarrow> event_target \<Rightarrow> bool" where
  "contains doc b t =
     (case t of
        InDocument p \<Rightarrow> inclusiveAncestors doc p \<noteq> None \<and> take 1 p = [b]
      | Detached r p \<Rightarrow> False)"

text \<open>\<^verbatim>\<open>target.closest(selector)\<close>: the nearest inclusive ancestor that matches, or null.\<close>

definition closest :: "element \<Rightarrow> event_target \<Rightarrow> selector \<Rightarrow> element option" where
  "closest doc t sel =
     (case (case t of InDocument p \<Rightarrow> inclusiveAncestors doc p
                    | Detached r p \<Rightarrow> inclusiveAncestors r p) of
        None \<Rightarrow> None
      | Some chain \<Rightarrow> List.find (matches sel) chain)"

record click_event =
  target :: event_target
  clientX :: int
  clientY :: int

record window =
  innerWidth :: int
  innerHeight :: int

datatype js_error = TypeError

subsection \<open>Storage, timers and the indicator elements\<close>

text \<open>
  The record kept under the key \<^verbatim>\<open>clickTimerData\<close>. Every property may be missing;
  a \<^verbatim>\<open>null\<close> \<^verbatim>\<open>lastClickTime\<close> and a missing one are both \<open>None\<close>.
\<close>

record persisted =
  d_lastClickTime :: "int option"
  d_clickCount :: "nat option"
  d_isEnabled :: "bool option"
  d_timestamp :: "int option"

text \<open>
  How \<^verbatim>\<open>chrome.storage.local\<close> behaves during one call: the API object is missing, the
  call rejects, or the call succeeds.
\<close>

datatype storage_api = ApiMissing | Rejects | Works

text \<open>
  The host state the script acts on: the indicator elements attached to the body (element
  handle and text content), the pending timeouts (handle and delay in milliseconds), the
  counters that supply fresh handles, the stored record, and the warnings written to the
  console.
\<close>

record host =
  indicators :: "(nat \<times> string) list"
  timeouts :: "(nat \<times> nat) list"
  elementCount :: nat
  timeoutCount :: nat
  stored :: "persisted option"
  warnings :: "string list"

definition setTimeout :: "nat \<Rightarrow> host \<Rightarrow> nat \<times> host" where
  "setTimeout delay h =
     (let tid = Suc (timeoutCount h)
      in (tid, h\<lparr>timeouts := timeouts h @ [(tid, delay)], timeoutCount := tid\<rparr>))"

definition clearTimeout :: "nat \<Rightarrow> host \<Rightarrow> host" where
  "clearTimeout tid h = h\<lparr>timeouts := filter (\<lambda>(i, d). i \<noteq> tid) (timeouts h)\<rparr>"

definition warn :: "string \<Rightarrow> host \<Rightarrow> host" where
  "warn msg h = h\<lparr>warnings := warnings h @ [msg]\<rparr>"

definition new_page :: "persisted option \<Rightarrow> host" where
  "new_page st =
     \<lparr>indicators = [], timeouts = [], elementCount = 0, timeoutCount = 0,
      stored = st, warnings = []\<rparr>"

subsection \<open>Numbers as text\<close>

text \<open>
  Counts and time stamps are integers. The interval \<^verbatim>\<open>(currentTime - lastClickTime) / 1000\<close>
  is modelled as an exact real number; \<^verbatim>\<open>toFixed(3)\<close> follows the language definition for
  magnitudes below \<open>10\<^sup>2\<^sup>1\<close>: the integer \<open>n\<close> nearest to \<open>1000 * x\<close> (the larger
  one on a tie) is written in decimal, padded to four digits, and the point is inserted
  before the last three.
\<close>

definition digit_char :: "nat \<Rightarrow> char" where
  "digit_char d = ''0123456789'' ! (d mod 10)"

fun digits :: "nat \<Rightarrow> string" where
  "digits n = (if n < 10 then [digit_char n] else digits (n div 10) @ [digit_char (n mod 10)])"

declare digits.simps [simp del]

definition insertPoint :: "string \<Rightarrow> string" where
  "insertPoint m =
     (let k = length m;
          m' = (if k \<le> 3 then replicate (3 + 1 - k) (CHR ''0'') @ m else m);
          k' = length m'
      in take (k' - 3) m' @ ''.'' @ drop (k' - 3) m')"

definition toFixed3 :: "real \<Rightarrow> string" where
  "toFixed3 x =
     (let s = (if x < 0 then ''-'' else '''');
          a = \<bar>x\<bar>;
          n = nat \<lfloor>a * 1000 + 1 / 2\<rfloor>
      in s @ insertPoint (digits n))"

section \<open>The click timer\<close>

text \<open>
  The fields of \<^verbatim>\<open>class ClickTimer\<close> that its methods read after construction. The
  indicator is held by the handle of its element, the timeout by its handle.
\<close>

record ClickTimer =
  lastClickTime :: "int option"
  clickCount :: nat
  isEnabled :: bool
  visualIndicator :: "nat option"
  indicatorTimeout :: "nat option"

definition constructor :: ClickTimer where
  "constructor =
     \<lparr>lastClickTime = None, clickCount = 0, isEnabled = True,
      visualIndicator = None, indicatorTimeout = None\<rparr>"

subsection \<open>Filtering\<close>

definition isValidPageClick :: "window \<Rightarrow> element \<Rightarrow> click_event \<Rightarrow> js_error + bool" where
  "isValidPageClick win doc ev =
     (case document_body doc of
        None \<Rightarrow> Inl TypeError
      | Some b \<Rightarrow>
          if \<not> contains doc b (target ev) then Inr False
          else
            let isScrollbarClick =
                  (clientX ev > innerWidth win - 20 \<or> clientY ev > innerHeight win - 20);
                isBrowserUI = (closest doc (target ev) (TypeSelector ''html'') = None)
            in if closest doc (target ev) (ClassSelector ''click-timer-indicator'') \<noteq> None
               then Inr False
               else Inr (\<not> isScrollbarClick \<and> \<not> isBrowserUI))"

subsection \<open>The indicator\<close>

definition removeVisualIndicator :: "ClickTimer \<times> host \<Rightarrow> ClickTimer \<times> host" where
  "removeVisualIndicator th =
     (case th of (this, h) \<Rightarrow>
        let (this1, h1) =
              (case indicatorTimeout this of
                 None \<Rightarrow> (this, h)
               | Some tid \<Rightarrow>
                   if tid \<noteq> 0
                   then (this\<lparr>indicatorTimeout := None\<rparr>, clearTimeout tid h)
                   else (this, h))
        in (case visualIndicator this1 of
              None \<Rightarrow> (this1, h1)
            | Some el \<Rightarrow>
                if el \<in> set (map fst (indicators h1))
                then (this1\<lparr>visualIndicator := None\<rparr>,
                      h1\<lparr>indicators := filter (\<lambda>(i, txt). i \<noteq> el) (indicators h1)\<rparr>)
                else (this1, h1)))"

definition createVisualIndicator ::
  "string \<Rightarrow> nat \<Rightarrow> ClickTimer \<times> host \<Rightarrow> ClickTimer \<times> host" where
  "createVisualIndicator message count th =
     (case th of (this, h) \<Rightarrow>
        let el = Suc (elementCount h);
            textContent = ''#'' @ digits count @ '': '' @ message
        in (this\<lparr>visualIndicator := Some el\<rparr>,
            h\<lparr>indicators := indicators h @ [(el, textContent)], elementCount := el\<rparr>))"

definition showVisualFeedback ::
  "string \<Rightarrow> nat \<Rightarrow> ClickTimer \<times> host \<Rightarrow> ClickTimer \<times> host" where
  "showVisualFeedback message count th =
     (case createVisualIndicator message count (removeVisualIndicator th) of
        (this, h) \<Rightarrow>
          (case setTimeout 2000 h of
             (tid, h') \<Rightarrow> (this\<lparr>indicatorTimeout := Some tid\<rparr>, h')))"

definition updateVisualFeedback ::
  "real \<Rightarrow> nat \<Rightarrow> ClickTimer \<times> host \<Rightarrow> ClickTimer \<times> host" where
  "updateVisualFeedback timeDiff count th = showVisualFeedback (toFixed3 timeDiff @ ''s'') count th"

text \<open>
  The callback of the auto-hide timeout. The timer queue drops the timeout that fires, then
  the callback runs \<^verbatim>\<open>removeVisualIndicator\<close>.
\<close>

definition timeoutFires :: "nat \<Rightarrow> ClickTimer \<times> host \<Rightarrow> ClickTimer \<times> host" where
  "timeoutFires tid th =
     (case th of (this, h) \<Rightarrow>
        if tid \<in> set (map fst (timeouts h))
        then removeVisualIndicator (this, clearTimeout tid h)
        else (this, h))"

subsection \<open>Persistence\<close>

text \<open>
  \<^verbatim>\<open>savePersistedData\<close> reads the clock once for the \<^verbatim>\<open>timestamp\<close> property. The write
  is asynchronous in the script; here it takes effect at once.
\<close>

definition savePersistedData ::
  "storage_api \<Rightarrow> int \<Rightarrow> ClickTimer \<times> host \<Rightarrow> ClickTimer \<times> host" where
  "savePersistedData api now th =
     (case th of (this, h) \<Rightarrow>
        (case api of
           ApiMissing \<Rightarrow>
             (this, warn ''[Click Timer] Chrome storage API not available for saving'' h)
         | Rejects \<Rightarrow> (this, warn ''[Click Timer] Could not save persisted data:'' h)
         | Works \<Rightarrow>
             (this, h\<lparr>stored := Some \<lparr>d_lastClickTime = lastClickTime this,
                                       d_clickCount = Some (clickCount this),
                                       d_isEnabled = Some (isEnabled this),
                                       d_timestamp = Some now\<rparr>\<rparr>)))"

text \<open>
  \<^verbatim>\<open>loadPersistedData\<close>, from the point where \<^verbatim>\<open>chrome.storage.local.get\<close> has settled
  with \<open>result\<close>. The script reads the clock twice: \<open>now1\<close> for the age of the save,
  \<open>now2\<close> for the age of the click. \<^verbatim>\<open>data.lastClickTime && ...\<close> tests truthiness, so a
  stored time of \<open>0\<close> counts as missing; \<^verbatim>\<open>x || 0\<close> replaces a missing number by \<open>0\<close>.
\<close>

definition loadPersistedData ::
  "storage_api \<Rightarrow> persisted option \<Rightarrow> int \<Rightarrow> int \<Rightarrow> ClickTimer \<times> host \<Rightarrow> ClickTimer \<times> host" where
  "loadPersistedData api result now1 now2 th =
     (case th of (this, h) \<Rightarrow>
        (case api of
           ApiMissing \<Rightarrow> (this, warn ''[Click Timer] Chrome storage API not available'' h)
         | Rejects \<Rightarrow> (this, warn ''[Click Timer] Could not load persisted data:'' h)
         | Works \<Rightarrow>
             (case result of
                None \<Rightarrow> (this, h)
              | Some data \<Rightarrow>
                  let timeSinceLastSave = now1 - (case d_timestamp data of None \<Rightarrow> 0 | Some ts \<Rightarrow> ts);
                      pageNavigationThreshold = 5000;
                      loaded =
                        (case d_lastClickTime data of
                           None \<Rightarrow> None
                         | Some saved \<Rightarrow>
                             if saved \<noteq> 0 \<and> timeSinceLastSave < pageNavigationThreshold
                             then
                               let timeDiffFromLoad = now2 - saved
                               in if timeDiffFromLoad > 0 \<and> timeDiffFromLoad < 300000
                                  then Some saved else None
                             else None)
                  in (this\<lparr>lastClickTime := loaded,
                           clickCount := (case d_clickCount data of None \<Rightarrow> 0 | Some c \<Rightarrow> c),
                           isEnabled := (case d_isEnabled data of None \<Rightarrow> True | Some b \<Rightarrow> b)\<rparr>,
                      h))))"

subsection \<open>Click handling and the control commands\<close>

text \<open>
  \<^verbatim>\<open>handleClick\<close> reads the clock for the click (\<open>currentTime\<close>) and, inside
  \<^verbatim>\<open>savePersistedData\<close>, for the time stamp of the save (\<open>saveTime\<close>). An exception
  leaves the handler before any assignment.
\<close>

definition handleClick ::
  "window \<Rightarrow> element \<Rightarrow> click_event \<Rightarrow> int \<Rightarrow> storage_api \<Rightarrow> int \<Rightarrow>
     ClickTimer \<times> host \<Rightarrow> js_error + ClickTimer \<times> host" where
  "handleClick win doc ev currentTime api saveTime th =
     (case th of (this, h) \<Rightarrow>
        if \<not> isEnabled this then Inr (this, h)
        else
          (case isValidPageClick win doc ev of
             Inl err \<Rightarrow> Inl err
           | Inr valid \<Rightarrow>
               if \<not> valid then Inr (this, h)
               else
                 (case (case lastClickTime this of
                          Some previous \<Rightarrow>
                            let timeDiff = real_of_int (currentTime - previous) / 1000;
                                this' = this\<lparr>clickCount := clickCount this + 1\<rparr>
                            in updateVisualFeedback timeDiff (clickCount this') (this', h)
                        | None \<Rightarrow>
                            let this' = this\<lparr>clickCount := 1\<rparr>
                            in showVisualFeedback ''First click recorded'' (clickCount this') (this', h)) of
                    (this1, h1) \<Rightarrow>
                      Inr (savePersistedData api saveTime
                             (this1\<lparr>lastClickTime := Some currentTime\<rparr>, h1)))))"

definition resetTimer :: "storage_api \<Rightarrow> int \<Rightarrow> ClickTimer \<times> host \<Rightarrow> ClickTimer \<times> host" where
  "resetTimer api now th =
     (case th of (this, h) \<Rightarrow>
        savePersistedData api now
          (removeVisualIndicator (this\<lparr>lastClickTime := None, clickCount := 0\<rparr>, h)))"

definition enable :: "storage_api \<Rightarrow> int \<Rightarrow> ClickTimer \<times> host \<Rightarrow> ClickTimer \<times> host" where
  "enable api now th =
     (case th of (this, h) \<Rightarrow> savePersistedData api now (this\<lparr>isEnabled := True\<rparr>, h))"

definition disable :: "storage_api \<Rightarrow> int \<Rightarrow> ClickTimer \<times> host \<Rightarrow> ClickTimer \<times> host" where
  "disable api now th =
     (case th of (this, h) \<Rightarrow>
        savePersistedData api now (removeVisualIndicator (this\<lparr>isEnabled := False\<rparr>, h)))"

text \<open>\<^verbatim>\<open>cleanup\<close> removes the indicator; the detaching of the listeners is not modelled.\<close>

definition cleanup :: "ClickTimer \<times> host \<Rightarrow> ClickTimer \<times> host" where
  "cleanup th = removeVisualIndicator th"

record stats =
  stats_clickCount :: nat
  stats_lastClickTime :: "int option"
  stats_isEnabled :: bool

definition getStats :: "ClickTimer \<times> host \<Rightarrow> stats \<times> (ClickTimer \<times> host)" where
  "getStats th =
     (case th of (this, h) \<Rightarrow>
        (\<lparr>stats_clickCount = clickCount this,
          stats_lastClickTime = lastClickTime this,
          stats_isEnabled = isEnabled this\<rparr>, (this, h)))"

subsection \<open>Runs of a page context\<close>

text \<open>
  What can happen to the tracker of one page: a click event, a control command, the
  settling of the start-up load, the firing of a timeout, the unload of the page. An
  exception in the click handler is reported by the browser and leaves the state as it was.
\<close>

datatype operation =
    Click window element click_event int storage_api int
  | Reset storage_api int
  | Enable storage_api int
  | Disable storage_api int
  | Load storage_api "persisted option" int int
  | TimeoutFires nat
  | Cleanup

fun step :: "ClickTimer \<times> host \<Rightarrow> operation \<Rightarrow> ClickTimer \<times> host" where
  "step th (Click win doc ev currentTime api saveTime) =
     (case handleClick win doc ev currentTime api saveTime th of
        Inl err \<Rightarrow> th
      | Inr th' \<Rightarrow> th')"
| "step th (Reset api now) = resetTimer api now th"
| "step th (Enable api now) = enable api now th"
| "step th (Disable api now) = disable api now th"
| "step th (Load api result now1 now2) = loadPersistedData api result now1 now2 th"
| "step th (TimeoutFires tid) = timeoutFires tid th"
| "step th Cleanup = cleanup th"

definition run :: "ClickTimer \<times> host \<Rightarrow> operation list \<Rightarrow> ClickTimer \<times> host" where
  "run th ops = foldl step th ops"

text \<open>Whether a click event is accepted in a state: the tracker is enabled and the filter passes.\<close>

definition accepted :: "ClickTimer \<Rightarrow> window \<Rightarrow> element \<Rightarrow> click_event \<Rightarrow> bool" where
  "accepted this win doc ev = (isEnabled this \<and> isValidPageClick win doc ev = Inr True)"

section \<open>Notions used in the statements\<close>

subsection \<open>Filtering, in the terms of the specification\<close>

text \<open>
  The target lies in the body when the document has a body that contains it;
  \<^verbatim>\<open>Node.contains\<close> counts the body itself. The four grounds for rejecting a click: the
  tracker is disabled, the target is outside the body, the pointer lies in the 20-unit strip
  at the right or bottom edge (\<^verbatim>\<open>clientX > innerWidth - 20\<close>, likewise for \<^verbatim>\<open>clientY\<close>),
  the target is the indicator or lies inside it.
\<close>

definition targetInBody :: "element \<Rightarrow> event_target \<Rightarrow> bool" where
  "targetInBody doc t = (case document_body doc of None \<Rightarrow> False | Some b \<Rightarrow> contains doc b t)"

definition rejection_conditions :: "ClickTimer \<Rightarrow> window \<Rightarrow> element \<Rightarrow> click_event \<Rightarrow> bool" where
  "rejection_conditions this win doc ev =
     (\<not> isEnabled this
      \<or> \<not> targetInBody doc (target ev)
      \<or> clientX ev > innerWidth win - 20 \<or> clientY ev > innerHeight win - 20
      \<or> closest doc (target ev) (ClassSelector ''click-timer-indicator'') \<noteq> None)"

subsection \<open>Consistency of the display\<close>

text \<open>
  The page shows at most the indicator the tracker refers to, and at most the timeout whose
  handle the tracker holds is pending; handles already handed out do not exceed the counters.
\<close>

definition display_consistent :: "ClickTimer \<times> host \<Rightarrow> bool" where
  "display_consistent th =
     (case th of (this, h) \<Rightarrow>
        (indicators h = [] \<or> map (\<lambda>(el, txt). Some el) (indicators h) = [visualIndicator this])
        \<and> (timeouts h = []
             \<or> map (\<lambda>(tid, d). Some tid) (timeouts h) = [indicatorTimeout this]
                \<and> indicatorTimeout this \<noteq> Some 0))"

definition handles_bounded :: "host \<Rightarrow> bool" where
  "handles_bounded h =
     (list_all (\<lambda>(el, txt). el \<le> elementCount h) (indicators h)
      \<and> list_all (\<lambda>(tid, d). tid \<le> timeoutCount h) (timeouts h))"

subsection \<open>The invariant of the session state\<close>

definition count_time_invariant :: "ClickTimer \<Rightarrow> bool" where
  "count_time_invariant this = (clickCount this = 0 \<longrightarrow> lastClickTime this = None)"

definition persisted_invariant :: "persisted \<Rightarrow> bool" where
  "persisted_invariant d =
     ((case d_clickCount d of None \<Rightarrow> 0 | Some c \<Rightarrow> c) = (0::nat) \<longrightarrow> d_lastClickTime d = None)"

fun loads_invariant_record :: "operation \<Rightarrow> bool" where
  "loads_invariant_record (Load api (Some d) now1 now2) = persisted_invariant d"
| "loads_invariant_record op = True"

subsection \<open>Counting accepted clicks\<close>

text \<open>
  The number of accepted clicks since the last reset along a run, starting from \<open>n\<close>.
  The start-up load is not a reset.
\<close>

fun acceptedSinceReset :: "nat \<Rightarrow> ClickTimer \<times> host \<Rightarrow> operation list \<Rightarrow> nat" where
  "acceptedSinceReset n th [] = n"
| "acceptedSinceReset n th (op # ops) =
     acceptedSinceReset
       (case op of
          Click win doc ev currentTime api saveTime \<Rightarrow>
            if accepted (fst th) win doc ev then Suc n else n
        | Reset api now \<Rightarrow> 0
        | _ \<Rightarrow> n)
       (step th op) ops"

fun is_load :: "operation \<Rightarrow> bool" where
  "is_load (Load api result now1 now2) = True"
| "is_load op = False"

subsection \<open>The decimal expansion of a number of milliseconds\<close>

definition millisText :: "nat \<Rightarrow> string" where
  "millisText n =
     digits (n div 1000) @ ''.'' @ [digit_char (n div 100), digit_char (n div 10), digit_char n]"

subsection \<open>A sample page\<close>

definition demo_document :: element where
  "demo_document =
     Element ''html'' []
       [Element ''head'' [] [],
        Element ''body'' [] [Element ''div'' [''content''] [Element ''button'' [] []]]]"

definition demo_window :: window where
  "demo_window = \<lparr>innerWidth = 1024, innerHeight = 768\<rparr>"

definition demo_click :: click_event where
  "demo_click = \<lparr>target = InDocument [1, 0, 0], clientX = 100, clientY = 200\<rparr>"

text \<open>The record a first accepted click at time 1000 stores when the storage call succeeds.\<close>

definition demo_stored :: persisted where
  "demo_stored =
     \<lparr>d_lastClickTime = Some 1000, d_clickCount = Some 1,
      d_isEnabled = Some True, d_timestamp = Some 1000\<rparr>"

section \<open>Auxiliary facts\<close>

subsection \<open>Decimal digits\<close>

lemma digit_char_mod [simp]: "digit_char (n mod 10) = digit_char n"
  by (simp add: digit_char_def)

lemma digit_char_0 [simp]: "digit_char 0 = CHR ''0''"
  by (simp add: digit_char_def)

lemma digits_small: "n < 10 \<Longrightarrow> digits n = [digit_char n]"
  by (simp add: digits.simps)

lemma digits_step: "10 \<le> n \<Longrightarrow> digits n = digits (n div 10) @ [digit_char n]"
  by (subst digits.simps) simp

lemma digits_nonempty [simp]: "digits n \<noteq> []"
  by (subst digits.simps) simp

lemma div_10_10: "n div 10 div 10 = n div (100::nat)"
  by (simp add: div_mult2_eq [symmetric])

lemma div_100_10: "n div 100 div 10 = n div (1000::nat)"
  by (simp add: div_mult2_eq [symmetric])

lemma digits_three:
  assumes "100 \<le> n"
  shows "digits n = digits (n div 100) @ [digit_char (n div 10), digit_char n]"
proof -
  have "10 \<le> n" and "10 \<le> n div 10" using assms by auto
  then show ?thesis
    by (simp add: digits_step [of n] digits_step [of "n div 10"] div_10_10)
qed

lemma replicate_small:
  "replicate 3 x = [x, x, x]" "replicate 2 x = [x, x]"
  by (simp_all add: numeral_3_eq_3 numeral_2_eq_2)

lemma insertPoint_digits: "insertPoint (digits n) = millisText n"
proof -
  consider "n < 10" | "10 \<le> n" "n < 100" | "100 \<le> n" "n < 1000" | "1000 \<le> n"
    by linarith
  then show ?thesis
  proof cases
    case 1
    then show ?thesis
      by (simp add: digits_small insertPoint_def millisText_def replicate_small)
  next
    case 2
    then have "n div 10 < 10" by auto
    with 2 show ?thesis
      by (simp add: digits_step [of n] digits_small insertPoint_def millisText_def
            replicate_small)
  next
    case 3
    then have "n div 100 < 10" by auto
    with 3 show ?thesis
      by (simp add: digits_three digits_small insertPoint_def millisText_def)
  next
    case 4
    then have "10 \<le> n div 100" by auto
    with 4 show ?thesis
      by (simp add: digits_three [of n] digits_step [of "n div 100"] div_100_10
            insertPoint_def millisText_def Let_def)
  qed
qed

lemma toFixed3_millis:
  assumes "0 \<le> d"
  shows "toFixed3 (real_of_int d / 1000) = millisText (nat d)"
proof -
  have "\<lfloor>\<bar>real_of_int d / 1000\<bar> * 1000 + 1 / 2\<rfloor> = d"
    using assms by (simp add: floor_unique)
  moreover have "\<not> real_of_int d / 1000 < 0" using assms by simp
  ultimately show ?thesis
    by (simp add: toFixed3_def insertPoint_digits Let_def)
qed


subsection \<open>The element tree\<close>

lemma demo_click_valid: "isValidPageClick demo_window demo_document demo_click = Inr True"
  by code_simp

lemma inclusiveAncestors_root: "inclusiveAncestors e p = Some chain \<Longrightarrow> e \<in> set chain"
  by (induction p arbitrary: e chain) (auto split: if_splits)

lemma document_body_html: "document_body doc = Some b \<Longrightarrow> localName doc = ''html''"
  by (simp add: document_body_def split: if_splits)

lemma closest_html:
  assumes "document_body doc = Some b" and "contains doc b t"
  shows "closest doc t (TypeSelector ''html'') \<noteq> None"
proof -
  from assms(2) obtain p chain where t: "t = InDocument p"
    and chain: "inclusiveAncestors doc p = Some chain"
    by (auto simp add: contains_def split: event_target.splits)
  have "doc \<in> set chain" using chain by (rule inclusiveAncestors_root)
  moreover have "matches (TypeSelector ''html'') doc"
    using assms(1) by (simp add: document_body_html)
  ultimately have "List.find (matches (TypeSelector ''html'')) chain \<noteq> None"
    by (auto simp add: find_None_iff)
  then show ?thesis by (simp add: closest_def t chain)
qed

lemma isValidPageClick_iff:
  "isValidPageClick win doc ev = Inr True \<longleftrightarrow>
     targetInBody doc (target ev)
     \<and> \<not> clientX ev > innerWidth win - 20 \<and> \<not> clientY ev > innerHeight win - 20
     \<and> closest doc (target ev) (ClassSelector ''click-timer-indicator'') = None"
proof (cases "document_body doc")
  case None
  then show ?thesis by (simp add: isValidPageClick_def targetInBody_def)
next
  case (Some b)
  then show ?thesis
    using closest_html [OF Some, of "target ev"]
    by (auto simp add: isValidPageClick_def targetInBody_def Let_def)
qed

lemma isValidPageClick_cases:
  "isValidPageClick win doc ev = Inl TypeError \<or> isValidPageClick win doc ev = Inr False
   \<or> isValidPageClick win doc ev = Inr True"
  by (cases "isValidPageClick win doc ev") (auto intro: js_error.exhaust)

subsection \<open>The indicator and the click handler\<close>

lemma savePersistedData_fst [simp]: "fst (savePersistedData api now th) = fst th"
  by (cases th; cases api) (simp_all add: savePersistedData_def)

lemma savePersistedData_display [simp]:
  "indicators (snd (savePersistedData api now th)) = indicators (snd th)"
  "timeouts (snd (savePersistedData api now th)) = timeouts (snd th)"
  "elementCount (snd (savePersistedData api now th)) = elementCount (snd th)"
  "timeoutCount (snd (savePersistedData api now th)) = timeoutCount (snd th)"
  by (cases th; cases api; simp add: savePersistedData_def warn_def)+

lemma removeVisualIndicator_session [simp]:
  "lastClickTime (fst (removeVisualIndicator th)) = lastClickTime (fst th)"
  "clickCount (fst (removeVisualIndicator th)) = clickCount (fst th)"
  "isEnabled (fst (removeVisualIndicator th)) = isEnabled (fst th)"
  by (cases th; simp add: removeVisualIndicator_def Let_def split: option.splits prod.splits)+

lemma removeVisualIndicator_host [simp]:
  "elementCount (snd (removeVisualIndicator th)) = elementCount (snd th)"
  "timeoutCount (snd (removeVisualIndicator th)) = timeoutCount (snd th)"
  "stored (snd (removeVisualIndicator th)) = stored (snd th)"
  "warnings (snd (removeVisualIndicator th)) = warnings (snd th)"
  by (cases th; simp add: removeVisualIndicator_def clearTimeout_def Let_def
        split: option.splits prod.splits)+

lemma singleton_map: "map f xs = [y] \<Longrightarrow> \<exists>x. xs = [x] \<and> f x = y"
  by (cases xs) auto

lemma removeVisualIndicator_clears:
  assumes "display_consistent th"
  shows "indicators (snd (removeVisualIndicator th)) = []"
    and "timeouts (snd (removeVisualIndicator th)) = []"
proof -
  obtain this h where th: "th = (this, h)" by (cases th)
  from assms th have ind: "indicators h = []
      \<or> (\<exists>el txt. indicators h = [(el, txt)] \<and> visualIndicator this = Some el)"
    by (auto simp add: display_consistent_def dest!: singleton_map)
  from assms th have tim: "timeouts h = []
      \<or> (\<exists>tid d. timeouts h = [(tid, d)] \<and> indicatorTimeout this = Some tid \<and> tid \<noteq> 0)"
    by (auto simp add: display_consistent_def dest!: singleton_map)
  from ind show "indicators (snd (removeVisualIndicator th)) = []"
    by (auto simp add: th removeVisualIndicator_def clearTimeout_def Let_def
          split: option.splits prod.splits)
  from tim show "timeouts (snd (removeVisualIndicator th)) = []"
    by (auto simp add: th removeVisualIndicator_def clearTimeout_def Let_def
          split: option.splits prod.splits)
qed

lemma removeVisualIndicator_consistent:
  "display_consistent th \<Longrightarrow> display_consistent (removeVisualIndicator th)"
  using removeVisualIndicator_clears [of th]
  by (cases "removeVisualIndicator th") (simp add: display_consistent_def)

lemma showVisualFeedback_session [simp]:
  "lastClickTime (fst (showVisualFeedback message count th)) = lastClickTime (fst th)"
  "clickCount (fst (showVisualFeedback message count th)) = clickCount (fst th)"
  "isEnabled (fst (showVisualFeedback message count th)) = isEnabled (fst th)"
  by (cases "removeVisualIndicator th",
      insert removeVisualIndicator_session [of th],
      simp add: showVisualFeedback_def createVisualIndicator_def setTimeout_def Let_def)+

lemma showVisualFeedback_new:
  "visualIndicator (fst (showVisualFeedback message count th)) = Some (Suc (elementCount (snd th)))"
  "indicatorTimeout (fst (showVisualFeedback message count th)) = Some (Suc (timeoutCount (snd th)))"
  "indicators (snd (showVisualFeedback message count th)) =
     indicators (snd (removeVisualIndicator th))
       @ [(Suc (elementCount (snd th)), ''#'' @ digits count @ '': '' @ message)]"
  "timeouts (snd (showVisualFeedback message count th)) =
     timeouts (snd (removeVisualIndicator th)) @ [(Suc (timeoutCount (snd th)), 2000)]"
  "elementCount (snd (showVisualFeedback message count th)) = Suc (elementCount (snd th))"
  "timeoutCount (snd (showVisualFeedback message count th)) = Suc (timeoutCount (snd th))"
  "stored (snd (showVisualFeedback message count th)) = stored (snd th)"
  "warnings (snd (showVisualFeedback message count th)) = warnings (snd th)"
  by (cases "removeVisualIndicator th",
      insert removeVisualIndicator_host [of th],
      simp add: showVisualFeedback_def createVisualIndicator_def setTimeout_def Let_def)+

lemma showVisualFeedback_consistent:
  assumes "display_consistent th"
  shows "display_consistent (showVisualFeedback message count th)"
  using removeVisualIndicator_clears [OF assms]
  by (cases "showVisualFeedback message count th",
      insert showVisualFeedback_new [of message count th])
     (simp add: display_consistent_def)

lemma handleClick_rejected:
  assumes "\<not> accepted this win doc ev"
  shows "handleClick win doc ev t api ts (this, h) = Inr (this, h)
         \<or> handleClick win doc ev t api ts (this, h) = Inl TypeError"
  using assms isValidPageClick_cases [of win doc ev]
  by (auto simp add: handleClick_def accepted_def)

lemma handleClick_accepted:
  assumes "accepted this win doc ev"
  shows "handleClick win doc ev t api ts (this, h) =
     Inr (savePersistedData api ts
            (apfst (\<lambda>x. x\<lparr>lastClickTime := Some t\<rparr>)
               (case lastClickTime this of
                  Some previous \<Rightarrow>
                    showVisualFeedback (toFixed3 (real_of_int (t - previous) / 1000) @ ''s'')
                      (clickCount this + 1) (this\<lparr>clickCount := clickCount this + 1\<rparr>, h)
                | None \<Rightarrow>
                    showVisualFeedback ''First click recorded'' 1 (this\<lparr>clickCount := 1\<rparr>, h))))"
  using assms
  by (auto simp add: handleClick_def accepted_def updateVisualFeedback_def Let_def
        split: option.splits prod.splits)

lemma timeoutFires_session [simp]:
  "lastClickTime (fst (timeoutFires tid th)) = lastClickTime (fst th)"
  "clickCount (fst (timeoutFires tid th)) = clickCount (fst th)"
  "isEnabled (fst (timeoutFires tid th)) = isEnabled (fst th)"
  by (cases th; simp add: timeoutFires_def)+

lemma handleClick_accepted_session:
  assumes "accepted this win doc ev"
  shows "lastClickTime (fst (step (this, h) (Click win doc ev t api ts))) = Some t"
    and "clickCount (fst (step (this, h) (Click win doc ev t api ts))) =
           (case lastClickTime this of None \<Rightarrow> 1 | Some previous \<Rightarrow> clickCount this + 1)"
    and "isEnabled (fst (step (this, h) (Click win doc ev t api ts))) = isEnabled this"
  by (simp_all add: handleClick_accepted [OF assms] split: option.splits)

lemma handleClick_rejected_step:
  assumes "\<not> accepted this win doc ev"
  shows "step (this, h) (Click win doc ev t api ts) = (this, h)"
  using handleClick_rejected [OF assms, of t api ts h] by auto

lemma new_page_fields [simp]:
  "indicators (new_page st) = []" "timeouts (new_page st) = []"
  "elementCount (new_page st) = 0" "timeoutCount (new_page st) = 0"
  "stored (new_page st) = st" "warnings (new_page st) = []"
  by (simp_all add: new_page_def)

lemma constructor_fields [simp]:
  "lastClickTime constructor = None" "clickCount constructor = 0" "isEnabled constructor"
  "visualIndicator constructor = None" "indicatorTimeout constructor = None"
  by (simp_all add: constructor_def)

lemma accepted_iff: "accepted this win doc ev \<longleftrightarrow> \<not> rejection_conditions this win doc ev"
  by (auto simp add: accepted_def rejection_conditions_def isValidPageClick_iff)

subsection \<open>Invariants of the display\<close>

lemma display_consistent_cong:
  assumes "visualIndicator (fst a) = visualIndicator (fst b)"
    and "indicatorTimeout (fst a) = indicatorTimeout (fst b)"
    and "indicators (snd a) = indicators (snd b)"
    and "timeouts (snd a) = timeouts (snd b)"
  shows "display_consistent a = display_consistent b"
  using assms by (cases a; cases b) (simp add: display_consistent_def)

lemma savePersistedData_consistent [simp]:
  "display_consistent (savePersistedData api now th) = display_consistent th"
  by (rule display_consistent_cong) simp_all

lemma removeVisualIndicator_subset:
  "set (indicators (snd (removeVisualIndicator th))) \<subseteq> set (indicators (snd th))"
  "set (timeouts (snd (removeVisualIndicator th))) \<subseteq> set (timeouts (snd th))"
  by (cases th; auto simp add: removeVisualIndicator_def clearTimeout_def Let_def
        split: option.splits prod.splits if_splits)+

lemma timeoutFires_consistent:
  assumes "display_consistent th"
  shows "display_consistent (timeoutFires tid th)"
proof -
  obtain this h where th: "th = (this, h)" by (cases th)
  have "display_consistent (this, clearTimeout tid h)"
    using assms
    by (auto simp add: th display_consistent_def clearTimeout_def dest!: singleton_map)
  then show ?thesis
    using assms by (simp add: th timeoutFires_def removeVisualIndicator_consistent)
qed

lemma loadPersistedData_display [simp]:
  "visualIndicator (fst (loadPersistedData api result now1 now2 th)) = visualIndicator (fst th)"
  "indicatorTimeout (fst (loadPersistedData api result now1 now2 th)) = indicatorTimeout (fst th)"
  "indicators (snd (loadPersistedData api result now1 now2 th)) = indicators (snd th)"
  "timeouts (snd (loadPersistedData api result now1 now2 th)) = timeouts (snd th)"
  "elementCount (snd (loadPersistedData api result now1 now2 th)) = elementCount (snd th)"
  "timeoutCount (snd (loadPersistedData api result now1 now2 th)) = timeoutCount (snd th)"
  by (cases th; cases api; cases result;
      simp add: loadPersistedData_def warn_def Let_def)+

lemma step_consistent:
  assumes "display_consistent th"
  shows "display_consistent (step th op)"
proof -
  obtain this h where th: "th = (this, h)" by (cases th)
  show ?thesis
  proof (cases op)
    case (Click win doc ev t api ts)
    show ?thesis
    proof (cases "accepted this win doc ev")
      case True
      have upd: "display_consistent (apfst (\<lambda>x. x\<lparr>lastClickTime := Some t\<rparr>) s) = display_consistent s"
        for s by (rule display_consistent_cong) (cases s; simp)+
      have a: "display_consistent (this\<lparr>clickCount := n\<rparr>, h)" for n
        using assms by (simp add: th display_consistent_def)
      show ?thesis
        by (simp add: Click th handleClick_accepted [OF True] upd a
              showVisualFeedback_consistent split: option.splits)
    next
      case False
      then show ?thesis
        using assms by (simp add: Click th handleClick_rejected_step del: step.simps)
    qed
  next
    case (Reset api now)
    have "display_consistent (this\<lparr>lastClickTime := None, clickCount := 0\<rparr>, h)"
      using assms by (simp add: th display_consistent_def)
    then show ?thesis
      by (simp add: Reset th resetTimer_def removeVisualIndicator_consistent)
  next
    case (Enable api now)
    have "display_consistent (this\<lparr>isEnabled := True\<rparr>, h)"
      using assms by (simp add: th display_consistent_def)
    then show ?thesis by (simp add: Enable th enable_def)
  next
    case (Disable api now)
    have "display_consistent (this\<lparr>isEnabled := False\<rparr>, h)"
      using assms by (simp add: th display_consistent_def)
    then show ?thesis
      by (simp add: Disable th disable_def removeVisualIndicator_consistent)
  next
    case (Load api result now1 now2)
    have "display_consistent (loadPersistedData api result now1 now2 th) = display_consistent th"
      by (rule display_consistent_cong) simp_all
    then show ?thesis using assms by (simp add: Load)
  next
    case (TimeoutFires tid)
    then show ?thesis using assms by (simp add: timeoutFires_consistent)
  next
    case Cleanup
    then show ?thesis using assms by (simp add: cleanup_def removeVisualIndicator_consistent)
  qed
qed

lemma handles_bounded_remove:
  assumes "handles_bounded (snd th)"
  shows "handles_bounded (snd (removeVisualIndicator th))"
  using assms removeVisualIndicator_subset [of th]
  by (auto simp add: handles_bounded_def list_all_iff)

lemma handles_bounded_show:
  assumes "handles_bounded (snd th)"
  shows "handles_bounded (snd (showVisualFeedback message count th))"
  using handles_bounded_remove [OF assms]
  by (auto simp add: handles_bounded_def list_all_iff showVisualFeedback_new)

lemma handles_bounded_save [simp]:
  "handles_bounded (snd (savePersistedData api now th)) = handles_bounded (snd th)"
  by (simp add: handles_bounded_def)

lemma handles_bounded_fires:
  assumes "handles_bounded (snd th)"
  shows "handles_bounded (snd (timeoutFires tid th))"
proof -
  obtain this h where th: "th = (this, h)" by (cases th)
  have "handles_bounded (snd (this, clearTimeout tid h))"
    using assms by (auto simp add: th handles_bounded_def clearTimeout_def list_all_iff)
  then show ?thesis
    using assms by (simp add: th timeoutFires_def handles_bounded_remove)
qed

lemma step_bounded:
  assumes "handles_bounded (snd th)"
  shows "handles_bounded (snd (step th op))"
proof -
  obtain this h where th: "th = (this, h)" by (cases th)
  show ?thesis
  proof (cases op)
    case (Click win doc ev t api ts)
    show ?thesis
    proof (cases "accepted this win doc ev")
      case True
      have a: "handles_bounded (snd (this\<lparr>clickCount := n\<rparr>, h))" for n
        using assms by (simp add: th)
      show ?thesis
        using handles_bounded_show [OF a]
        by (simp add: Click th handleClick_accepted [OF True] split: option.splits)
    next
      case False
      then show ?thesis
        using assms by (simp add: Click th handleClick_rejected_step del: step.simps)
    qed
  next
    case (Reset api now)
    have "handles_bounded (snd (this\<lparr>lastClickTime := None, clickCount := 0\<rparr>, h))"
      using assms by (simp add: th)
    then show ?thesis
      by (simp add: Reset th resetTimer_def handles_bounded_remove)
  next
    case (Enable api now)
    then show ?thesis using assms by (simp add: th enable_def)
  next
    case (Disable api now)
    have "handles_bounded (snd (this\<lparr>isEnabled := False\<rparr>, h))"
      using assms by (simp add: th)
    then show ?thesis
      by (simp add: Disable th disable_def handles_bounded_remove)
  next
    case (Load api result now1 now2)
    then show ?thesis using assms by (simp add: handles_bounded_def)
  next
    case (TimeoutFires tid)
    then show ?thesis using assms by (simp add: handles_bounded_fires)
  next
    case Cleanup
    then show ?thesis using assms by (simp add: cleanup_def handles_bounded_remove)
  qed
qed

lemma run_invariants:
  assumes "display_consistent th" and "handles_bounded (snd th)"
  shows "display_consistent (run th ops) \<and> handles_bounded (snd (run th ops))"
  using assms unfolding run_def
  by (induction ops arbitrary: th) (simp_all add: step_consistent step_bounded)

lemma initial_invariants:
  "display_consistent (constructor, new_page st)" "handles_bounded (snd (constructor, new_page st))"
  by (simp_all add: display_consistent_def handles_bounded_def new_page_def)

lemma consistent_lengths:
  assumes "display_consistent th"
  shows "length (indicators (snd th)) \<le> 1" and "length (timeouts (snd th)) \<le> 1"
  using assms by (cases th; auto simp add: display_consistent_def dest!: singleton_map)+

lemma timeoutFires_clears:
  assumes "display_consistent th" and "tid \<in> set (map fst (timeouts (snd th)))"
  shows "indicators (snd (timeoutFires tid th)) = []"
    and "timeouts (snd (timeoutFires tid th)) = []"
proof -
  obtain this h where th: "th = (this, h)" by (cases th)
  have c: "display_consistent (this, clearTimeout tid h)"
    using assms(1)
    by (auto simp add: th display_consistent_def clearTimeout_def dest!: singleton_map)
  have f: "timeoutFires tid th = removeVisualIndicator (this, clearTimeout tid h)"
    using assms(2) by (simp add: th timeoutFires_def)
  show "indicators (snd (timeoutFires tid th)) = []"
    and "timeouts (snd (timeoutFires tid th)) = []"
    by (simp_all add: f removeVisualIndicator_clears [OF c])
qed

subsection \<open>Counting within one page context\<close>

text \<open>
  Within one page context, as long as no start-up load settles, the count is the number of
  accepted clicks since the last reset.
\<close>

lemma step_counts:
  assumes "\<not> is_load op" and "lastClickTime (fst th) = None \<longrightarrow> clickCount (fst th) = 0"
  shows "clickCount (fst (step th op)) = acceptedSinceReset (clickCount (fst th)) th [op]"
    and "lastClickTime (fst (step th op)) = None \<longrightarrow> clickCount (fst (step th op)) = 0"
proof -
  obtain this h where th: "th = (this, h)" by (cases th)
  have both: "clickCount (fst (step th op)) = acceptedSinceReset (clickCount (fst th)) th [op]
    \<and> (lastClickTime (fst (step th op)) = None \<longrightarrow> clickCount (fst (step th op)) = 0)"
  proof (cases op)
    case (Click win doc ev t api ts)
    show ?thesis
    proof (cases "accepted this win doc ev")
      case True
      then show ?thesis
        using assms(2)
        by (auto simp add: Click th handleClick_accepted_session simp del: step.simps
              split: option.splits)
    next
      case False
      then show ?thesis
        using assms(2) by (simp add: Click th handleClick_rejected_step del: step.simps)
    qed
  next
    case (Reset api now)
    then show ?thesis by (simp add: th resetTimer_def)
  next
    case (Enable api now)
    then show ?thesis using assms(2) by (simp add: th enable_def)
  next
    case (Disable api now)
    then show ?thesis using assms(2) by (simp add: th disable_def)
  next
    case (Load api result now1 now2)
    then show ?thesis using assms(1) by simp
  next
    case (TimeoutFires tid)
    then show ?thesis using assms(2) by (simp add: th)
  next
    case Cleanup
    then show ?thesis using assms(2) by (simp add: th cleanup_def)
  qed
  show "clickCount (fst (step th op)) = acceptedSinceReset (clickCount (fst th)) th [op]"
    by (rule conjunct1 [OF both])
  show "lastClickTime (fst (step th op)) = None \<longrightarrow> clickCount (fst (step th op)) = 0"
    by (rule conjunct2 [OF both])
qed

lemma clickCount_counts_accepted:
  assumes "list_all (\<lambda>op. \<not> is_load op) ops"
    and "lastClickTime (fst th) = None \<longrightarrow> clickCount (fst th) = 0"
  shows "clickCount (fst (run th ops)) = acceptedSinceReset (clickCount (fst th)) th ops"
  using assms
proof (induction ops arbitrary: th)
  case Nil
  then show ?case by (simp add: run_def)
next
  case (Cons op ops)
  from Cons.prems have nl: "\<not> is_load op" and rest: "list_all (\<lambda>op. \<not> is_load op) ops"
    by simp_all
  note s = step_counts [OF nl Cons.prems(2)]
  have "clickCount (fst (run (step th op) ops))
      = acceptedSinceReset (clickCount (fst (step th op))) (step th op) ops"
    by (rule Cons.IH [OF rest s(2)])
  then show ?case
    using s(1) by (simp add: run_def del: step.simps)
qed

text \<open>
  A start-up load that keeps the stored \<open>lastClickTime\<close> carries the count on: the
  accepted clicks that follow are added to the count it took over.
\<close>

lemma count_continues_when_time_adopted:
  assumes "list_all (\<lambda>op. \<not> is_load op) ops"
    and "lastClickTime (fst (loadPersistedData api result now1 now2 th)) \<noteq> None"
  shows "clickCount (fst (run (loadPersistedData api result now1 now2 th) ops))
           = acceptedSinceReset (clickCount (fst (loadPersistedData api result now1 now2 th)))
               (loadPersistedData api result now1 now2 th) ops"
  by (rule clickCount_counts_accepted [OF assms(1)]) (simp add: assms(2))

subsection \<open>Evaluations on the sample page\<close>

lemma demo_click_accepted: "accepted constructor demo_window demo_document demo_click"
  by (simp add: accepted_def demo_click_valid constructor_def)

lemma digits_eval:
  "digits (Suc 0) = ''1''" "digits (Suc (Suc 0)) = ''2''" "digits 2 = ''2''" "digits 6 = ''6''"
  by (simp_all add: digits.simps digit_char_def)

lemma millisText_127: "millisText 127 = ''0.127''"
  by (simp add: millisText_def digits.simps digit_char_def)

section \<open>The claims\<close>

text \<open>
  Claim C1, as amended. On a start-up load that finds a stored record, read at one clock
  value \<open>now\<close>, the tracker takes over the stored \<open>lastClickTime\<close> exactly when it is
  present and not zero, the save is less than 5000 ms old (a missing time stamp counts as
  \<open>0\<close>) and the click is more than 0 and less than 300000 ms old; otherwise
  \<open>lastClickTime\<close> is cleared. The count and the enabled flag are taken over in every
  case, \<open>0\<close> and \<open>True\<close> standing in for missing ones.
\<close>

theorem loadPersistedData_continuity:
  "loadPersistedData Works (Some d) now now (this, h) =
     (this\<lparr>lastClickTime :=
              (if \<exists>T. d_lastClickTime d = Some T \<and> T \<noteq> 0
                      \<and> now - (case d_timestamp d of None \<Rightarrow> 0 | Some s \<Rightarrow> s) < 5000
                      \<and> 0 < now - T \<and> now - T < 300000
               then d_lastClickTime d else None),
            clickCount := (case d_clickCount d of None \<Rightarrow> 0 | Some c \<Rightarrow> c),
            isEnabled := (case d_isEnabled d of None \<Rightarrow> True | Some b \<Rightarrow> b)\<rparr>, h)"
  by (cases "d_lastClickTime d") (auto simp add: loadPersistedData_def Let_def)

text \<open>
  Claim C1, as stated, fails for a stored \<open>lastClickTime\<close> of \<open>0\<close>: it is present, the
  save is 3000 ms old and the click 3000 ms, yet the load clears \<open>lastClickTime\<close>, since
  \<^verbatim>\<open>data.lastClickTime && ...\<close> treats \<open>0\<close> as missing.
\<close>

theorem load_zero_time_counterexample:
  "d_lastClickTime \<lparr>d_lastClickTime = Some 0, d_clickCount = Some 1, d_isEnabled = Some True,
                     d_timestamp = Some 0\<rparr> = Some 0
   \<and> (3000::int) - 0 < 5000 \<and> (0::int) < 3000 - 0 \<and> (3000::int) - 0 < 300000
   \<and> lastClickTime (fst (loadPersistedData Works
         (Some \<lparr>d_lastClickTime = Some 0, d_clickCount = Some 1, d_isEnabled = Some True,
                d_timestamp = Some 0\<rparr>) 3000 3000 (constructor, new_page None))) = None
   \<and> lastClickTime (fst (loadPersistedData Works
         (Some \<lparr>d_lastClickTime = Some 0, d_clickCount = Some 1, d_isEnabled = Some True,
                d_timestamp = Some 0\<rparr>) 3000 3000 (constructor, new_page None))) \<noteq> Some 0"
  by (simp add: loadPersistedData_def Let_def)

text \<open>
  Claim C2: after \<open>N\<close> accepted clicks since the last reset the count is \<open>N\<close>, also
  when a start-up load has taken over a stored count while clearing \<open>lastClickTime\<close>.
  The code does not meet this across a slow navigation. On the first page a reset and one
  accepted click leave the count at 1 and store it. A page that loads this record 8000 ms
  after the save takes over the count 1 and clears \<open>lastClickTime\<close>; its first accepted
  click is the second since the reset, yet the first-click branch of \<^verbatim>\<open>handleClick\<close>
  assigns 1 and the count it leaves is 1. A page that loads the same record 1000 ms after
  the save keeps \<open>lastClickTime\<close>, and there the same click leaves the count at 2.
\<close>

theorem count_lost_after_slow_navigation:
  "acceptedSinceReset 0 (constructor, new_page None)
      [Reset Works 0, Click demo_window demo_document demo_click 1000 Works 1000] = 1
   \<and> clickCount (fst (run (constructor, new_page None)
        [Reset Works 0, Click demo_window demo_document demo_click 1000 Works 1000])) = 1
   \<and> stored (snd (run (constructor, new_page None)
        [Reset Works 0, Click demo_window demo_document demo_click 1000 Works 1000]))
       = Some demo_stored
   \<and> clickCount (fst (run (constructor, new_page (Some demo_stored))
        [Load Works (Some demo_stored) 9000 9000])) = 1
   \<and> lastClickTime (fst (run (constructor, new_page (Some demo_stored))
        [Load Works (Some demo_stored) 9000 9000])) = None
   \<and> acceptedSinceReset 1 (constructor, new_page (Some demo_stored))
        [Load Works (Some demo_stored) 9000 9000,
         Click demo_window demo_document demo_click 10000 Works 10000] = 2
   \<and> clickCount (fst (run (constructor, new_page (Some demo_stored))
        [Load Works (Some demo_stored) 9000 9000,
         Click demo_window demo_document demo_click 10000 Works 10000])) = 1
   \<and> lastClickTime (fst (run (constructor, new_page (Some demo_stored))
        [Load Works (Some demo_stored) 2000 2000])) = Some 1000
   \<and> acceptedSinceReset 1 (constructor, new_page (Some demo_stored))
        [Load Works (Some demo_stored) 2000 2000,
         Click demo_window demo_document demo_click 3000 Works 3000] = 2
   \<and> clickCount (fst (run (constructor, new_page (Some demo_stored))
        [Load Works (Some demo_stored) 2000 2000,
         Click demo_window demo_document demo_click 3000 Works 3000])) = 2"
proof -
  let ?c = "\<lambda>t. Click demo_window demo_document demo_click t Works t"
  let ?new = "(constructor, new_page (Some demo_stored))"
  have page1: "acceptedSinceReset 0 (constructor, new_page None) [Reset Works 0, ?c 1000] = 1"
    "clickCount (fst (run (constructor, new_page None) [Reset Works 0, ?c 1000])) = 1"
    "stored (snd (run (constructor, new_page None) [Reset Works 0, ?c 1000])) = Some demo_stored"
    by code_simp+
  have slow: "clickCount (fst (run ?new [Load Works (Some demo_stored) 9000 9000])) = 1"
    "lastClickTime (fst (run ?new [Load Works (Some demo_stored) 9000 9000])) = None"
    "acceptedSinceReset 1 ?new [Load Works (Some demo_stored) 9000 9000, ?c 10000] = 2"
    "clickCount (fst (run ?new [Load Works (Some demo_stored) 9000 9000, ?c 10000])) = 1"
    by code_simp+
  obtain this1 h1 where l: "loadPersistedData Works (Some demo_stored) 2000 2000 ?new = (this1, h1)"
    by (cases "loadPersistedData Works (Some demo_stored) 2000 2000 ?new")
  have "(this1, h1) = (constructor\<lparr>lastClickTime := Some 1000, clickCount := 1, isEnabled := True\<rparr>,
      new_page (Some demo_stored))"
    using l by (simp add: loadPersistedData_def demo_stored_def Let_def)
  then have f: "lastClickTime this1 = Some 1000" "clickCount this1 = 1" "isEnabled this1"
    by simp_all
  have a: "accepted this1 demo_window demo_document demo_click"
    using f(3) by (simp add: accepted_def demo_click_valid)
  have fast: "lastClickTime (fst (run ?new [Load Works (Some demo_stored) 2000 2000])) = Some 1000"
    "acceptedSinceReset 1 ?new [Load Works (Some demo_stored) 2000 2000, ?c 3000] = 2"
    "clickCount (fst (run ?new [Load Works (Some demo_stored) 2000 2000, ?c 3000])) = 2"
    using a f
    by (simp_all add: run_def l handleClick_accepted_session [OF a] del: step.simps
          add: step.simps(5))
  from page1 slow fast show ?thesis by blast
qed

text \<open>
  Claim C3: when the previous accepted click left \<open>lastClickTime = t1\<close> and the next
  accepted click is handled at \<open>t2 > t1\<close>, the handler returns normally, the count grows
  by exactly one, \<open>lastClickTime\<close> becomes \<open>t2\<close>, and the indicator it shows carries the
  interval \<open>(t2 - t1) / 1000\<close> printed with three decimals, which is the number of
  milliseconds \<open>t2 - t1\<close> with the point before its last three digits.
\<close>

theorem consecutive_click_interval:
  assumes "lastClickTime this = Some t1" and "t1 < t2" and "accepted this win doc ev"
  shows "handleClick win doc ev t2 api ts (this, h)
           = Inr (step (this, h) (Click win doc ev t2 api ts))
         \<and> clickCount (fst (step (this, h) (Click win doc ev t2 api ts))) = clickCount this + 1
         \<and> lastClickTime (fst (step (this, h) (Click win doc ev t2 api ts))) = Some t2
         \<and> visualIndicator (fst (step (this, h) (Click win doc ev t2 api ts)))
             = Some (Suc (elementCount h))
         \<and> last (indicators (snd (step (this, h) (Click win doc ev t2 api ts)))) =
               (Suc (elementCount h),
                ''#'' @ digits (clickCount this + 1) @ '': ''
                  @ toFixed3 (real_of_int (t2 - t1) / 1000) @ ''s'')
         \<and> toFixed3 (real_of_int (t2 - t1) / 1000) = millisText (nat (t2 - t1))"
proof -
  have "toFixed3 (real_of_int (t2 - t1) / 1000) = millisText (nat (t2 - t1))"
  proof (rule toFixed3_millis)
    show "0 \<le> t2 - t1" using assms(2) by simp
  qed
  moreover have "handleClick win doc ev t2 api ts (this, h)
           = Inr (step (this, h) (Click win doc ev t2 api ts))"
    by (simp add: handleClick_accepted [OF assms(3)])
  moreover have "clickCount (fst (step (this, h) (Click win doc ev t2 api ts))) = clickCount this + 1"
    and "lastClickTime (fst (step (this, h) (Click win doc ev t2 api ts))) = Some t2"
    by (simp_all add: handleClick_accepted_session [OF assms(3)] assms(1) del: step.simps)
  moreover have "visualIndicator (fst (step (this, h) (Click win doc ev t2 api ts)))
             = Some (Suc (elementCount h))"
    and "last (indicators (snd (step (this, h) (Click win doc ev t2 api ts)))) =
               (Suc (elementCount h),
                ''#'' @ digits (clickCount this + 1) @ '': ''
                  @ toFixed3 (real_of_int (t2 - t1) / 1000) @ ''s'')"
    by (simp_all add: handleClick_accepted [OF assms(3)] assms(1) showVisualFeedback_new)
  ultimately show ?thesis by blast
qed

theorem consecutive_click_interval_witness:
  "lastClickTime (constructor\<lparr>lastClickTime := Some 1000, clickCount := 5\<rparr>) = Some 1000
   \<and> (1000::int) < 1127
   \<and> accepted (constructor\<lparr>lastClickTime := Some 1000, clickCount := 5\<rparr>)
        demo_window demo_document demo_click
   \<and> clickCount (fst (step (constructor\<lparr>lastClickTime := Some 1000, clickCount := 5\<rparr>,
                            new_page None)
                       (Click demo_window demo_document demo_click 1127 Works 1128))) = 6
   \<and> last (indicators (snd (step (constructor\<lparr>lastClickTime := Some 1000, clickCount := 5\<rparr>,
                            new_page None)
                       (Click demo_window demo_document demo_click 1127 Works 1128))))
       = (1, ''#6: 0.127s'')"
proof -
  have a: "accepted (constructor\<lparr>lastClickTime := Some 1000, clickCount := 5\<rparr>)
        demo_window demo_document demo_click"
    by (simp add: accepted_def demo_click_valid)
  have l: "lastClickTime (constructor\<lparr>lastClickTime := Some 1000, clickCount := 5\<rparr>) = Some 1000"
    by simp
  have lt: "(1000::int) < 1127" by simp
  from consecutive_click_interval [OF l lt a, of Works 1128 "new_page None"]
  show ?thesis
    using a by (simp add: millisText_127 digits_eval del: step.simps)
qed

text \<open>
  Claim C4: a click event leaves \<open>lastClickTime\<close>, \<open>clickCount\<close> and \<open>isEnabled\<close> as
  they were and creates no indicator if and only if the tracker is disabled, or the target
  is not in the body, or the pointer is in the 20-unit strip at the right or bottom edge, or
  the target is the indicator or inside it. A rejected event changes nothing at all (the
  handler returns, or fails before any assignment when the document has no body). A click
  in the edge strip or on the indicator is rejected for either value of \<open>isEnabled\<close>.
\<close>

theorem handleClick_rejects_iff:
  "((case handleClick win doc ev t api ts (this, h) of
       Inl err \<Rightarrow> True
     | Inr (this', h') \<Rightarrow>
         lastClickTime this' = lastClickTime this \<and> clickCount this' = clickCount this
         \<and> isEnabled this' = isEnabled this \<and> elementCount h' = elementCount h)
    \<longleftrightarrow> rejection_conditions this win doc ev)
   \<and> (rejection_conditions this win doc ev \<longrightarrow>
        handleClick win doc ev t api ts (this, h) = Inr (this, h)
        \<or> handleClick win doc ev t api ts (this, h) = Inl TypeError)
   \<and> (clientX ev > innerWidth win - 20 \<or> clientY ev > innerHeight win - 20
        \<or> closest doc (target ev) (ClassSelector ''click-timer-indicator'') \<noteq> None \<longrightarrow>
        (\<forall>b. handleClick win doc ev t api ts (this\<lparr>isEnabled := b\<rparr>, h)
                = Inr (this\<lparr>isEnabled := b\<rparr>, h)
              \<or> handleClick win doc ev t api ts (this\<lparr>isEnabled := b\<rparr>, h)
                = Inl TypeError))"
proof -
  let ?unchanged = "case handleClick win doc ev t api ts (this, h) of
       Inl err \<Rightarrow> True
     | Inr (this', h') \<Rightarrow>
         lastClickTime this' = lastClickTime this \<and> clickCount this' = clickCount this
         \<and> isEnabled this' = isEnabled this \<and> elementCount h' = elementCount h"
  have first: "(?unchanged \<longleftrightarrow> rejection_conditions this win doc ev)
     \<and> (rejection_conditions this win doc ev \<longrightarrow>
        handleClick win doc ev t api ts (this, h) = Inr (this, h)
        \<or> handleClick win doc ev t api ts (this, h) = Inl TypeError)"
  proof (cases "accepted this win doc ev")
    case True
    then have rhs: "\<not> rejection_conditions this win doc ev"
      by (simp add: accepted_iff)
    have "lastClickTime this = None \<or> (\<exists>p. lastClickTime this = Some p)" by auto
    then have "\<not> ?unchanged"
      by (auto simp add: handleClick_accepted [OF True] split: prod.splits
            dest!: arg_cong [where f = fst])
    with rhs show ?thesis by blast
  next
    case False
    then have rhs: "rejection_conditions this win doc ev"
      by (simp add: accepted_iff)
    from handleClick_rejected [OF False, of t api ts h]
    have res: "handleClick win doc ev t api ts (this, h) = Inr (this, h)
          \<or> handleClick win doc ev t api ts (this, h) = Inl TypeError" .
    then have "?unchanged" by auto
    with rhs res show ?thesis by blast
  qed
  have second: "handleClick win doc ev t api ts (this\<lparr>isEnabled := b\<rparr>, h)
                = Inr (this\<lparr>isEnabled := b\<rparr>, h)
              \<or> handleClick win doc ev t api ts (this\<lparr>isEnabled := b\<rparr>, h)
                = Inl TypeError"
    if "clientX ev > innerWidth win - 20 \<or> clientY ev > innerHeight win - 20
        \<or> closest doc (target ev) (ClassSelector ''click-timer-indicator'') \<noteq> None" for b
  proof -
    from that have "\<not> accepted (this\<lparr>isEnabled := b\<rparr>) win doc ev"
      by (auto simp add: accepted_iff rejection_conditions_def)
    then show ?thesis by (rule handleClick_rejected)
  qed
  from first second show ?thesis by blast
qed

theorem handleClick_rejects_iff_witness:
  "rejection_conditions constructor demo_window demo_document (demo_click\<lparr>clientX := 1010\<rparr>)
   \<and> handleClick demo_window demo_document (demo_click\<lparr>clientX := 1010\<rparr>) 7 Works 7
        (constructor, new_page None) = Inr (constructor, new_page None)"
proof -
  have r: "rejection_conditions constructor demo_window demo_document (demo_click\<lparr>clientX := 1010\<rparr>)"
    by (simp add: rejection_conditions_def demo_window_def demo_click_def)
  have "isValidPageClick demo_window demo_document (demo_click\<lparr>clientX := 1010\<rparr>) = Inr False"
    by code_simp
  then have "handleClick demo_window demo_document (demo_click\<lparr>clientX := 1010\<rparr>) 7 Works 7
        (constructor, new_page None) \<noteq> Inl TypeError"
    by (simp add: handleClick_def)
  with r handleClick_rejects_iff [where win = demo_window and doc = demo_document
      and ev = "demo_click\<lparr>clientX := 1010\<rparr>" and t = 7 and api = Works and ts = 7
      and this = constructor and h = "new_page None"]
  show ?thesis by blast
qed

text \<open>
  Claim C5: every operation (a click event, accepted or rejected, reset, enable, disable,
  the firing of the timeout, the unload, and a start-up load of a record that satisfies the
  invariant itself) preserves the invariant that a count of zero implies an absent
  \<open>lastClickTime\<close>.
\<close>

theorem operations_preserve_invariant:
  assumes "count_time_invariant this" and "loads_invariant_record op"
  shows "count_time_invariant (fst (step (this, h) op))"
proof (cases op)
  case (Click win doc ev t api ts)
  show ?thesis
  proof (cases "accepted this win doc ev")
    case True
    then show ?thesis
      by (simp add: Click count_time_invariant_def handleClick_accepted_session
            del: step.simps split: option.splits)
  next
    case False
    then show ?thesis
      using assms(1) by (simp add: Click handleClick_rejected_step del: step.simps)
  qed
next
  case (Reset api now)
  then show ?thesis by (simp add: resetTimer_def count_time_invariant_def)
next
  case (Enable api now)
  then show ?thesis using assms(1) by (simp add: enable_def count_time_invariant_def)
next
  case (Disable api now)
  then show ?thesis using assms(1) by (simp add: disable_def count_time_invariant_def)
next
  case (Load api result now1 now2)
  then show ?thesis
    using assms
    by (cases api; cases result)
       (auto simp add: loadPersistedData_def count_time_invariant_def persisted_invariant_def
          Let_def split: option.splits)
next
  case (TimeoutFires tid)
  then show ?thesis using assms(1) by (simp add: count_time_invariant_def)
next
  case Cleanup
  then show ?thesis using assms(1) by (simp add: cleanup_def count_time_invariant_def)
qed

theorem operations_preserve_invariant_witness:
  "count_time_invariant constructor
   \<and> loads_invariant_record
        (Load Works (Some \<lparr>d_lastClickTime = Some 1000, d_clickCount = Some 3,
                          d_isEnabled = Some True, d_timestamp = Some 1000\<rparr>) 2000 2000)
   \<and> count_time_invariant
        (fst (step (constructor, new_page None)
           (Load Works (Some \<lparr>d_lastClickTime = Some 1000, d_clickCount = Some 3,
                          d_isEnabled = Some True, d_timestamp = Some 1000\<rparr>) 2000 2000)))"
proof -
  have a: "count_time_invariant constructor" by (simp add: count_time_invariant_def)
  have b: "loads_invariant_record
        (Load Works (Some \<lparr>d_lastClickTime = Some 1000, d_clickCount = Some 3,
                          d_isEnabled = Some True, d_timestamp = Some 1000\<rparr>) 2000 2000)"
    by (simp add: persisted_invariant_def)
  from operations_preserve_invariant [OF a b, of "new_page None"] a b
  show ?thesis by blast
qed

text \<open>
  Claim C6: from the fresh state, two accepted clicks 127 ms apart. The first leaves the
  count at 1 and the single indicator \<^verbatim>\<open>#1: First click recorded\<close>; the second leaves
  the count at 2 and the single indicator \<^verbatim>\<open>#2: 0.127s\<close>.
\<close>

theorem two_clicks_127ms:
  assumes "isValidPageClick win1 doc1 ev1 = Inr True"
    and "isValidPageClick win2 doc2 ev2 = Inr True"
  shows "clickCount (fst (run (constructor, new_page st) [Click win1 doc1 ev1 t api1 ts1])) = 1
   \<and> indicators (snd (run (constructor, new_page st) [Click win1 doc1 ev1 t api1 ts1]))
       = [(1, ''#1: First click recorded'')]
   \<and> clickCount (fst (run (constructor, new_page st)
         [Click win1 doc1 ev1 t api1 ts1, Click win2 doc2 ev2 (t + 127) api2 ts2])) = 2
   \<and> indicators (snd (run (constructor, new_page st)
         [Click win1 doc1 ev1 t api1 ts1, Click win2 doc2 ev2 (t + 127) api2 ts2]))
       = [(2, ''#2: 0.127s'')]"
proof -
  let ?c1 = "Click win1 doc1 ev1 t api1 ts1"
  let ?c2 = "Click win2 doc2 ev2 (t + 127) api2 ts2"
  obtain this1 h1 where p1: "step (constructor, new_page st) ?c1 = (this1, h1)"
    by (cases "step (constructor, new_page st) ?c1")
  obtain this2 h2 where p2: "step (this1, h1) ?c2 = (this2, h2)"
    by (cases "step (this1, h1) ?c2")
  have a1: "accepted constructor win1 doc1 ev1"
    using assms(1) by (simp add: accepted_def)
  have c0': "display_consistent (constructor\<lparr>clickCount := 1\<rparr>, new_page st)"
    by (simp add: display_consistent_def)
  let ?r1 = "savePersistedData api1 ts1
      (apfst (\<lambda>x. x\<lparr>lastClickTime := Some t\<rparr>)
         (showVisualFeedback ''First click recorded'' 1
            (constructor\<lparr>clickCount := 1\<rparr>, new_page st)))"
  have "(this1, h1) = ?r1"
    using p1 by (simp add: handleClick_accepted [OF a1])
  then have r1: "this1 = fst ?r1" "h1 = snd ?r1"
    by (metis fst_conv, metis snd_conv)
  have f1: "clickCount this1 = 1" "lastClickTime this1 = Some t" "isEnabled this1"
    "elementCount h1 = 1" "indicators h1 = [(1, ''#1: First click recorded'')]"
    using removeVisualIndicator_clears [OF c0']
    by (simp_all add: r1 showVisualFeedback_new digits_eval)
  have "display_consistent (step (constructor, new_page st) ?c1)"
    by (rule step_consistent [OF initial_invariants(1)])
  then have c1: "display_consistent (this1, h1)" by (simp only: p1)
  have a2: "accepted this1 win2 doc2 ev2"
    using assms(2) f1(3) by (simp add: accepted_def)
  have c1': "display_consistent (this1\<lparr>clickCount := clickCount this1 + 1\<rparr>, h1)"
    using c1 by (simp add: display_consistent_def)
  let ?r2 = "savePersistedData api2 ts2
      (apfst (\<lambda>x. x\<lparr>lastClickTime := Some (t + 127)\<rparr>)
         (showVisualFeedback (toFixed3 (real_of_int (t + 127 - t) / 1000) @ ''s'')
            (clickCount this1 + 1) (this1\<lparr>clickCount := clickCount this1 + 1\<rparr>, h1)))"
  have "(this2, h2) = ?r2"
    using p2 by (simp add: handleClick_accepted [OF a2] f1(2))
  then have r2: "this2 = fst ?r2" "h2 = snd ?r2"
    by (metis fst_conv, metis snd_conv)
  have tf: "toFixed3 (127 / 1000) = ''0.127''"
    using toFixed3_millis [of 127] by (simp add: millisText_127)
  have f2: "clickCount this2 = 2" "indicators h2 = [(2, ''#2: 0.127s'')]"
    using f1(1,4) removeVisualIndicator_clears [OF c1']
    by (simp_all add: r2 tf showVisualFeedback_new digits_eval)
  show ?thesis
    by (simp add: run_def p1 p2 f1 f2 del: step.simps)
qed

theorem two_clicks_127ms_witness:
  "isValidPageClick demo_window demo_document demo_click = Inr True
   \<and> clickCount (fst (run (constructor, new_page None)
         [Click demo_window demo_document demo_click 5000 Works 5001])) = 1
   \<and> indicators (snd (run (constructor, new_page None)
         [Click demo_window demo_document demo_click 5000 Works 5001]))
       = [(1, ''#1: First click recorded'')]
   \<and> clickCount (fst (run (constructor, new_page None)
         [Click demo_window demo_document demo_click 5000 Works 5001,
          Click demo_window demo_document demo_click (5000 + 127) Rejects 5128])) = 2
   \<and> indicators (snd (run (constructor, new_page None)
         [Click demo_window demo_document demo_click 5000 Works 5001,
          Click demo_window demo_document demo_click (5000 + 127) Rejects 5128]))
       = [(2, ''#2: 0.127s'')]"
  using two_clicks_127ms [OF demo_click_valid demo_click_valid, of None 5000 Works 5001 Rejects 5128]
    demo_click_valid
  by blast

text \<open>
  Claim C7: from every state, reset leaves a count of zero and no \<open>lastClickTime\<close>; when
  the display is consistent it leaves no indicator on the page and no pending timeout; and
  when the storage call succeeds the stored record is the cleared state.
\<close>

theorem resetTimer_clears:
  "clickCount (fst (resetTimer api now (this, h))) = 0
   \<and> lastClickTime (fst (resetTimer api now (this, h))) = None
   \<and> (display_consistent (this, h) \<longrightarrow>
        indicators (snd (resetTimer api now (this, h))) = []
        \<and> timeouts (snd (resetTimer api now (this, h))) = [])
   \<and> stored (snd (resetTimer Works now (this, h))) =
        Some \<lparr>d_lastClickTime = None, d_clickCount = Some 0,
              d_isEnabled = Some (isEnabled this), d_timestamp = Some now\<rparr>"
proof -
  let ?cleared = "(this\<lparr>lastClickTime := None, clickCount := 0\<rparr>, h)"
  have "display_consistent (this, h) \<Longrightarrow> display_consistent ?cleared"
    by (simp add: display_consistent_def)
  then have "display_consistent (this, h) \<Longrightarrow>
      indicators (snd (removeVisualIndicator ?cleared)) = []
      \<and> timeouts (snd (removeVisualIndicator ?cleared)) = []"
    by (simp add: removeVisualIndicator_clears)
  moreover have "stored (snd (resetTimer Works now (this, h))) =
        Some \<lparr>d_lastClickTime = None, d_clickCount = Some 0,
              d_isEnabled = Some (isEnabled this), d_timestamp = Some now\<rparr>"
    using removeVisualIndicator_session [of ?cleared]
    by (cases "removeVisualIndicator ?cleared") (simp add: resetTimer_def savePersistedData_def)
  ultimately show ?thesis by (simp add: resetTimer_def)
qed

lemma first_click_indicator:
  "indicators (snd (run (constructor, new_page None)
      [Click demo_window demo_document demo_click 1000 Works 1000]))
     = [(1, ''#1: First click recorded'')]"
  by code_simp

theorem resetTimer_clears_witness:
  "display_consistent
     (step (constructor, new_page None) (Click demo_window demo_document demo_click 1000 Works 1000))
   \<and> indicators (snd (step (constructor, new_page None)
         (Click demo_window demo_document demo_click 1000 Works 1000)))
       = [(1, ''#1: First click recorded'')]
   \<and> clickCount (fst (resetTimer Works 2000
        (step (constructor, new_page None)
           (Click demo_window demo_document demo_click 1000 Works 1000)))) = 0
   \<and> lastClickTime (fst (resetTimer Works 2000
        (step (constructor, new_page None)
           (Click demo_window demo_document demo_click 1000 Works 1000)))) = None
   \<and> indicators (snd (resetTimer Works 2000
        (step (constructor, new_page None)
           (Click demo_window demo_document demo_click 1000 Works 1000)))) = []
   \<and> timeouts (snd (resetTimer Works 2000
        (step (constructor, new_page None)
           (Click demo_window demo_document demo_click 1000 Works 1000)))) = []
   \<and> stored (snd (resetTimer Works 2000
        (step (constructor, new_page None)
           (Click demo_window demo_document demo_click 1000 Works 1000))))
       = Some \<lparr>d_lastClickTime = None, d_clickCount = Some 0,
               d_isEnabled = Some True, d_timestamp = Some 2000\<rparr>"
proof -
  let ?th = "step (constructor, new_page None)
               (Click demo_window demo_document demo_click 1000 Works 1000)"
  have c: "display_consistent ?th"
    by (rule step_consistent [OF initial_invariants(1)])
  have i: "indicators (snd ?th) = [(1, ''#1: First click recorded'')]"
    using first_click_indicator by (simp add: run_def del: step.simps)
  have e: "isEnabled (fst ?th)"
    by (simp add: handleClick_accepted_session [OF demo_click_accepted] del: step.simps)
  from resetTimer_clears [of Works 2000 "fst ?th" "snd ?th"] c i e
  show ?thesis by (simp del: step.simps)
qed

text \<open>
  Claim C8: for an accepted click, reset, enable and disable, the resulting tracker (and
  whether the click handler fails) does not depend on how the storage call ends; a missing
  API and a rejected call only add a warning; and a start-up load that meets a missing API
  or a rejected call leaves the freshly constructed tracker as it is.
\<close>

theorem persistence_outcome_irrelevant:
  "map_sum id fst (handleClick win doc ev t api ts th)
     = map_sum id fst (handleClick win doc ev t api' ts' th)
   \<and> fst (resetTimer api now th) = fst (resetTimer api' now' th)
   \<and> fst (enable api now th) = fst (enable api' now' th)
   \<and> fst (disable api now th) = fst (disable api' now' th)
   \<and> savePersistedData ApiMissing now (this, h)
       = (this, warn ''[Click Timer] Chrome storage API not available for saving'' h)
   \<and> savePersistedData Rejects now (this, h)
       = (this, warn ''[Click Timer] Could not save persisted data:'' h)
   \<and> loadPersistedData ApiMissing result now1 now2 (constructor, h)
       = (constructor, warn ''[Click Timer] Chrome storage API not available'' h)
   \<and> loadPersistedData Rejects result now1 now2 (constructor, h)
       = (constructor, warn ''[Click Timer] Could not load persisted data:'' h)"
proof -
  obtain this0 h0 where th: "th = (this0, h0)" by (cases th)
  have "map_sum id fst (handleClick win doc ev t api ts th)
     = map_sum id fst (handleClick win doc ev t api' ts' th)"
    by (simp add: th handleClick_def split: sum.splits prod.splits option.splits)
  moreover have "fst (resetTimer api now th) = fst (resetTimer api' now' th)"
    and "fst (enable api now th) = fst (enable api' now' th)"
    and "fst (disable api now th) = fst (disable api' now' th)"
    by (simp_all add: th resetTimer_def enable_def disable_def)
  moreover have "savePersistedData ApiMissing now (this, h)
       = (this, warn ''[Click Timer] Chrome storage API not available for saving'' h)"
    and "savePersistedData Rejects now (this, h)
       = (this, warn ''[Click Timer] Could not save persisted data:'' h)"
    by (simp_all add: savePersistedData_def)
  moreover have "loadPersistedData ApiMissing result now1 now2 (constructor, h)
       = (constructor, warn ''[Click Timer] Chrome storage API not available'' h)"
    and "loadPersistedData Rejects result now1 now2 (constructor, h)
       = (constructor, warn ''[Click Timer] Could not load persisted data:'' h)"
    by (simp_all add: loadPersistedData_def)
  ultimately show ?thesis by blast
qed

text \<open>
  Claim C9: in every state a page context can reach, at most one indicator is on the page
  and at most one timeout is pending; showing feedback there leaves exactly the new
  indicator and exactly the new timeout of 2000 ms, neither of which existed before; and
  when that timeout fires the indicator is removed.
\<close>

theorem single_indicator:
  "length (indicators (snd (run (constructor, new_page st) ops))) \<le> 1
   \<and> length (timeouts (snd (run (constructor, new_page st) ops))) \<le> 1
   \<and> indicators (snd (showVisualFeedback message count (run (constructor, new_page st) ops)))
       = [(Suc (elementCount (snd (run (constructor, new_page st) ops))),
           ''#'' @ digits count @ '': '' @ message)]
   \<and> timeouts (snd (showVisualFeedback message count (run (constructor, new_page st) ops)))
       = [(Suc (timeoutCount (snd (run (constructor, new_page st) ops))), 2000)]
   \<and> Suc (elementCount (snd (run (constructor, new_page st) ops)))
       \<notin> set (map fst (indicators (snd (run (constructor, new_page st) ops))))
   \<and> Suc (timeoutCount (snd (run (constructor, new_page st) ops)))
       \<notin> set (map fst (timeouts (snd (run (constructor, new_page st) ops))))
   \<and> indicators (snd (timeoutFires (Suc (timeoutCount (snd (run (constructor, new_page st) ops))))
        (showVisualFeedback message count (run (constructor, new_page st) ops)))) = []"
proof -
  let ?th = "run (constructor, new_page st) ops"
  have inv: "display_consistent ?th" "handles_bounded (snd ?th)"
    using run_invariants [OF initial_invariants, of st ops] by simp_all
  have "Suc (elementCount (snd ?th)) \<notin> set (map fst (indicators (snd ?th)))"
    and "Suc (timeoutCount (snd ?th)) \<notin> set (map fst (timeouts (snd ?th)))"
    using inv(2) by (auto simp add: handles_bounded_def list_all_iff)
  moreover have shown: "timeouts (snd (showVisualFeedback message count ?th))
       = [(Suc (timeoutCount (snd ?th)), 2000)]"
    using removeVisualIndicator_clears [OF inv(1)] by (simp add: showVisualFeedback_new)
  moreover have "indicators (snd (timeoutFires (Suc (timeoutCount (snd ?th)))
        (showVisualFeedback message count ?th))) = []"
    by (rule timeoutFires_clears [OF showVisualFeedback_consistent [OF inv(1)]])
       (simp add: shown)
  ultimately show ?thesis
    using consistent_lengths [OF inv(1)] removeVisualIndicator_clears [OF inv(1)]
    by (simp add: showVisualFeedback_new)
qed

text \<open>
  Claim C10: enable and disable change only \<open>isEnabled\<close>; reset leaves \<open>isEnabled\<close> as
  it is; \<open>getStats\<close> returns the three fields and the state unchanged.
\<close>

theorem control_commands_frame:
  "clickCount (fst (enable api now (this, h))) = clickCount this
   \<and> lastClickTime (fst (enable api now (this, h))) = lastClickTime this
   \<and> isEnabled (fst (enable api now (this, h))) = True
   \<and> clickCount (fst (disable api now (this, h))) = clickCount this
   \<and> lastClickTime (fst (disable api now (this, h))) = lastClickTime this
   \<and> isEnabled (fst (disable api now (this, h))) = False
   \<and> isEnabled (fst (resetTimer api now (this, h))) = isEnabled this
   \<and> getStats (this, h) =
        (\<lparr>stats_clickCount = clickCount this, stats_lastClickTime = lastClickTime this,
          stats_isEnabled = isEnabled this\<rparr>, (this, h))"
  by (simp add: enable_def disable_def resetTimer_def getStats_def)

end
